theory Spec2Isabelle
  imports Main "HOL-Library.Word"
begin

section \<open>The actor control block of libcaf\_core\<close>

text \<open>
  The development follows \<^verbatim>\<open>libcaf_core/caf/actor_control_block.hpp\<close>. The header
  declares the class \<^verbatim>\<open>actor_control_block\<close>, defines its constructor, the
  accessors \<^verbatim>\<open>get\<close>, \<^verbatim>\<open>from\<close>, \<^verbatim>\<open>id\<close>, \<^verbatim>\<open>node\<close> and the two inline
  increments \<^verbatim>\<open>intrusive_ptr_add_ref\<close> and \<^verbatim>\<open>intrusive_ptr_add_weak_ref\<close>.
  Everything else it names (\<^verbatim>\<open>intrusive_ptr_release\<close>,
  \<^verbatim>\<open>intrusive_ptr_release_weak\<close>, \<^verbatim>\<open>intrusive_ptr_upgrade_weak\<close>, both
  \<^verbatim>\<open>enqueue\<close> overloads, the four \<^verbatim>\<open>serialize\<close> overloads) is declared only.
\<close>

subsection \<open>Machine types\<close>

text \<open>
  \<^verbatim>\<open>std::size_t\<close> and \<^verbatim>\<open>intptr_t\<close> are 64 bits wide on the LP64 targets of the
  library. \<^verbatim>\<open>std::atomic<size_t>::fetch_add\<close> and \<^verbatim>\<open>fetch_sub\<close> are modular, as
  \<open>+\<close> and \<open>-\<close> on words are. \<^verbatim>\<open>intptr_t\<close> is signed; its bits are a word too, and
  \<open>sint\<close> reads them as the signed value.
\<close>

type_synonym size_t = "64 word"
type_synonym intptr_t = "64 word"

subsection \<open>The class\<close>

text \<open>
  The types \<^verbatim>\<open>actor_id\<close>, \<^verbatim>\<open>node_id\<close>, \<^verbatim>\<open>actor_system*\<close> and the two function
  pointer types come from headers outside this file, so they are type parameters.
  The two counters are atomics; the other five members are declared \<^verbatim>\<open>const\<close>.
\<close>

record ('aid, 'nid, 'sys, 'dd, 'bd) actor_control_block =
  strong_refs :: size_t
  weak_refs :: size_t
  aid :: 'aid
  nid :: 'nid
  home_system :: 'sys
  data_dtor :: 'dd
  block_dtor :: 'bd

text \<open>
  The constructor (lines 69 to 79). Its second argument is a \<^verbatim>\<open>node_id&\<close> that is moved
  into \<^verbatim>\<open>nid\<close>; the block receives the value the argument had.
\<close>

definition actor_control_block ::
  "'aid \<Rightarrow> 'nid \<Rightarrow> 'sys \<Rightarrow> 'dd \<Rightarrow> 'bd \<Rightarrow> ('aid, 'nid, 'sys, 'dd, 'bd) actor_control_block" where
  "actor_control_block x y sys ddtor bdtor =
     \<lparr>strong_refs = 1, weak_refs = 1, aid = x, nid = y, home_system = sys,
      data_dtor = ddtor, block_dtor = bdtor\<rparr>"

text \<open>
  \<^verbatim>\<open>get\<close> and \<^verbatim>\<open>from\<close> (lines 93 to 105) are arithmetic on the pointer's integer value.
  The macro \<^verbatim>\<open>CAF_CACHE_LINE_SIZE\<close> is defined in another header, so it is the parameter
  \<open>cls\<close>. \<^verbatim>\<open>from\<close> is a keyword of Isar, hence \<open>from_ptr\<close>.
\<close>

definition get :: "intptr_t \<Rightarrow> intptr_t \<Rightarrow> intptr_t" where
  "get cls this = this + cls"

definition from_ptr :: "intptr_t \<Rightarrow> intptr_t \<Rightarrow> intptr_t" where
  "from_ptr cls ptr = ptr - cls"

text \<open>\<^verbatim>\<open>id\<close> and \<^verbatim>\<open>node\<close> (lines 109 to 115); \<open>id\<close> is HOL's identity, hence \<open>id_acb\<close>.\<close>

definition id_acb :: "('aid, 'nid, 'sys, 'dd, 'bd) actor_control_block \<Rightarrow> 'aid" where
  "id_acb x = aid x"

definition node :: "('aid, 'nid, 'sys, 'dd, 'bd) actor_control_block \<Rightarrow> 'nid" where
  "node x = nid x"

text \<open>
  The two inline increments (lines 129 to 139): \<^verbatim>\<open>fetch_add(1, relaxed)\<close> on one counter,
  the value it returns dropped.
\<close>

definition intrusive_ptr_add_weak_ref ::
  "('aid, 'nid, 'sys, 'dd, 'bd) actor_control_block \<Rightarrow> ('aid, 'nid, 'sys, 'dd, 'bd) actor_control_block" where
  "intrusive_ptr_add_weak_ref x = x\<lparr>weak_refs := weak_refs x + 1\<rparr>"

definition intrusive_ptr_add_ref ::
  "('aid, 'nid, 'sys, 'dd, 'bd) actor_control_block \<Rightarrow> ('aid, 'nid, 'sys, 'dd, 'bd) actor_control_block" where
  "intrusive_ptr_add_ref x = x\<lparr>strong_refs := strong_refs x + 1\<rparr>"

section \<open>The operations defined out of line\<close>

text \<open>
  A call of a destruction callback, or the return of \<^verbatim>\<open>intrusive_ptr_upgrade_weak\<close>, is an
  event; an operation returns the events it causes next to the block it leaves.
  \<open>Data_dtor d a\<close> is the call \<^verbatim>\<open>d(a)\<close> of the data destructor on the actor pointer
  \<open>a\<close>, \<open>Block_dtor d a\<close> the call of the block destructor on the block pointer.
\<close>

datatype ('dd, 'bd) event =
    Data_dtor 'dd intptr_t
  | Block_dtor 'bd intptr_t
  | Upgrade_returned bool

text \<open>
  Modelled from the spec: the decrements behind \<^verbatim>\<open>intrusive_ptr_release\<close> and
  \<^verbatim>\<open>intrusive_ptr_release_weak\<close>, whose bodies the header does not hold. Section 4.1:
  each ``atomically decrements'' its count.
\<close>

definition dec_strong ::
  "('aid, 'nid, 'sys, 'dd, 'bd) actor_control_block \<Rightarrow> ('aid, 'nid, 'sys, 'dd, 'bd) actor_control_block" where
  "dec_strong x = x\<lparr>strong_refs := strong_refs x - 1\<rparr>"

definition dec_weak ::
  "('aid, 'nid, 'sys, 'dd, 'bd) actor_control_block \<Rightarrow> ('aid, 'nid, 'sys, 'dd, 'bd) actor_control_block" where
  "dec_weak x = x\<lparr>weak_refs := weak_refs x - 1\<rparr>"

text \<open>
  Modelled from the spec: the body of \<^verbatim>\<open>intrusive_ptr_release_weak\<close> (declared at line
  134). Section 4.1, \<^verbatim>\<open>release_weak()\<close>: ``atomically decrements the weak count. If the
  result is zero: invoke the block-destruction callback, freeing the entire allocation''.
  \<open>p\<close> is the pointer the function is called with, \<open>x\<close> the block it points to.
\<close>

definition intrusive_ptr_release_weak ::
  "intptr_t \<Rightarrow> ('aid, 'nid, 'sys, 'dd, 'bd) actor_control_block
   \<Rightarrow> ('aid, 'nid, 'sys, 'dd, 'bd) actor_control_block \<times> ('dd, 'bd) event list" where
  "intrusive_ptr_release_weak p x =
     (let x' = dec_weak x
      in if weak_refs x' = 0 then (x', [Block_dtor (block_dtor x') p]) else (x', []))"

text \<open>
  Modelled from the spec: the body of \<^verbatim>\<open>intrusive_ptr_release\<close> (declared at line 142).
  Section 4.1, \<^verbatim>\<open>release_strong()\<close>: ``atomically decrements the strong count. If the
  result is zero: invoke the data-destruction callback on the actor's private data [...],
  then perform one \<^verbatim>\<open>release_weak()\<close>''. The private data is at \<open>get cls p\<close>.
\<close>

definition intrusive_ptr_release ::
  "intptr_t \<Rightarrow> intptr_t \<Rightarrow> ('aid, 'nid, 'sys, 'dd, 'bd) actor_control_block
   \<Rightarrow> ('aid, 'nid, 'sys, 'dd, 'bd) actor_control_block \<times> ('dd, 'bd) event list" where
  "intrusive_ptr_release cls p x =
     (let x' = dec_strong x
      in if strong_refs x' = 0
         then (let (x'', es) = intrusive_ptr_release_weak p x'
               in (x'', Data_dtor (data_dtor x') (get cls p) # es))
         else (x', []))"

text \<open>
  Modelled from the spec: the body of \<^verbatim>\<open>intrusive_ptr_upgrade_weak\<close> (declared at line
  126). Section 4.1, \<^verbatim>\<open>upgrade_weak()\<close>: ``read the current strong count; if it is zero,
  fail [...]. Otherwise attempt an atomic compare-and-swap incrementing the observed value
  by one; on failure (another thread changed the count) re-read and retry; on success
  return a new strong handle.'' \<open>count\<close> is the value the caller last observed. With no
  other thread between the read and the compare-and-swap the loop body runs once; the
  executions below put other threads' steps in between.
\<close>

function upgrade_weak_loop ::
  "size_t \<Rightarrow> ('aid, 'nid, 'sys, 'dd, 'bd) actor_control_block
   \<Rightarrow> bool \<times> ('aid, 'nid, 'sys, 'dd, 'bd) actor_control_block" where
  "upgrade_weak_loop count x =
     (if count = 0 then (False, x)
      else if strong_refs x = count then (True, x\<lparr>strong_refs := count + 1\<rparr>)
      else upgrade_weak_loop (strong_refs x) x)"
  by pat_completeness auto
termination
  by (relation "measure (\<lambda>(count, x). if strong_refs x = count then 0 else 1)") auto

definition intrusive_ptr_upgrade_weak ::
  "('aid, 'nid, 'sys, 'dd, 'bd) actor_control_block
   \<Rightarrow> bool \<times> ('aid, 'nid, 'sys, 'dd, 'bd) actor_control_block" where
  "intrusive_ptr_upgrade_weak x = upgrade_weak_loop (strong_refs x) x"

text \<open>The five members declared \<^verbatim>\<open>const\<close> (lines 86 to 90).\<close>

definition const_members ::
  "('aid, 'nid, 'sys, 'dd, 'bd) actor_control_block \<Rightarrow> 'aid \<times> 'nid \<times> 'sys \<times> 'dd \<times> 'bd" where
  "const_members x = (aid x, nid x, home_system x, data_dtor x, block_dtor x)"

section \<open>Executions: calls of many threads, interleaved\<close>

text \<open>
  Modelled from the spec: how calls on one control block interleave. The header has no
  caller of the operations; the handle types (sections 3 and 4.2 of the spec) are their
  only callers: copying a strong handle calls \<^verbatim>\<open>intrusive_ptr_add_ref\<close>, destroying it
  \<^verbatim>\<open>intrusive_ptr_release\<close>; copying a weak handle calls
  \<^verbatim>\<open>intrusive_ptr_add_weak_ref\<close>, destroying it \<^verbatim>\<open>intrusive_ptr_release_weak\<close>; a
  weak handle can be upgraded.

  An execution state holds the block, the events so far, and what the threads hold:
  the number of strong and of weak handles at rest, and the calls in flight. A call in
  flight is between two of its atomic accesses:
  \<^item> \<open>data_dtor_due\<close>: calls of \<^verbatim>\<open>intrusive_ptr_release\<close> whose decrement gave zero
    and that have not called the data destructor yet;
  \<^item> \<open>implicit_release_due\<close>: calls of \<^verbatim>\<open>intrusive_ptr_release\<close> that have called
    the data destructor and not yet entered \<^verbatim>\<open>intrusive_ptr_release_weak\<close>;
  \<^item> \<open>block_dtor_due\<close>: calls of \<^verbatim>\<open>intrusive_ptr_release_weak\<close> whose decrement gave
    zero and that have not called the block destructor yet;
  \<^item> \<open>upgrading\<close>: for each call of \<^verbatim>\<open>intrusive_ptr_upgrade_weak\<close> in flight, the
    strong count it last observed.
\<close>

record ('aid, 'nid, 'sys, 'dd, 'bd) execution =
  block :: "('aid, 'nid, 'sys, 'dd, 'bd) actor_control_block"
  events :: "('dd, 'bd) event list"
  strong_handles :: nat
  weak_handles :: nat
  data_dtor_due :: nat
  implicit_release_due :: nat
  block_dtor_due :: nat
  upgrading :: "size_t list"

text \<open>
  Modelled from the spec: the state after construction. Section 3: the strong count of 1
  belongs to the first strong handle; the weak count of 1 is the implicit weak reference of
  the strong side, which no handle holds.
\<close>

definition start ::
  "('aid, 'nid, 'sys, 'dd, 'bd) actor_control_block \<Rightarrow> ('aid, 'nid, 'sys, 'dd, 'bd) execution" where
  "start b = \<lparr>block = b, events = [], strong_handles = 1, weak_handles = 0,
     data_dtor_due = 0, implicit_release_due = 0, block_dtor_due = 0, upgrading = []\<rparr>"

text \<open>
  An action is one atomic step of one thread. The first five enter an operation and make
  its first access to a counter; the last four continue a call in flight (\<open>Run_cas i\<close>
  continues the \<open>i\<close>-th upgrade in flight).
\<close>

datatype action =
    Add_ref | Add_weak_ref | Release | Release_weak | Upgrade_weak
  | Run_data_dtor | Run_implicit_release | Run_block_dtor | Run_cas nat

definition drop_nth :: "nat \<Rightarrow> 'a list \<Rightarrow> 'a list" where
  "drop_nth i xs = take i xs @ drop (Suc i) xs"

text \<open>
  Modelled from the spec: one step. \<open>None\<close> means the step is not one of a correct
  execution: the thread would need a handle (or a call in flight) that nobody has, a
  contract violation by section 7, or a counter would overflow, which section 7 puts out
  of scope.
  \<^item> \<open>Add_ref\<close> copies a strong handle, so one is held; \<open>Add_weak_ref\<close> makes a weak
    handle from a strong or a weak one.
  \<^item> \<open>Release\<close> and \<open>Release_weak\<close> give up a handle with the decrement.
  \<^item> \<open>Upgrade_weak\<close> reads the strong count; the weak handle is in use until the call
    returns, so it is not at rest meanwhile.
  \<^item> \<open>Run_cas i\<close> is one turn of the loop of \<open>upgrade_weak_loop\<close>: return \<open>False\<close> on an
    observed zero; else compare and swap, which either succeeds and returns \<open>True\<close> or
    gives the count it found, to retry with.
\<close>

fun step ::
  "intptr_t \<Rightarrow> intptr_t \<Rightarrow> action \<Rightarrow> ('aid, 'nid, 'sys, 'dd, 'bd) execution
   \<Rightarrow> ('aid, 'nid, 'sys, 'dd, 'bd) execution option" where
  "step cls p Add_ref s =
     (if 1 \<le> strong_handles s \<and> strong_refs (block s) \<noteq> - 1
      then Some (s\<lparr>block := intrusive_ptr_add_ref (block s),
                   strong_handles := strong_handles s + 1\<rparr>)
      else None)"
| "step cls p Add_weak_ref s =
     (if (1 \<le> strong_handles s \<or> 1 \<le> weak_handles s) \<and> weak_refs (block s) \<noteq> - 1
      then Some (s\<lparr>block := intrusive_ptr_add_weak_ref (block s),
                   weak_handles := weak_handles s + 1\<rparr>)
      else None)"
| "step cls p Release s =
     (if 1 \<le> strong_handles s
      then (let x' = dec_strong (block s)
            in Some (s\<lparr>block := x', strong_handles := strong_handles s - 1,
                 data_dtor_due := data_dtor_due s + (if strong_refs x' = 0 then 1 else 0)\<rparr>))
      else None)"
| "step cls p Run_data_dtor s =
     (if 1 \<le> data_dtor_due s
      then Some (s\<lparr>events := events s @ [Data_dtor (data_dtor (block s)) (get cls p)],
                   data_dtor_due := data_dtor_due s - 1,
                   implicit_release_due := implicit_release_due s + 1\<rparr>)
      else None)"
| "step cls p Run_implicit_release s =
     (if 1 \<le> implicit_release_due s
      then (let x' = dec_weak (block s)
            in Some (s\<lparr>block := x', implicit_release_due := implicit_release_due s - 1,
                 block_dtor_due := block_dtor_due s + (if weak_refs x' = 0 then 1 else 0)\<rparr>))
      else None)"
| "step cls p Release_weak s =
     (if 1 \<le> weak_handles s
      then (let x' = dec_weak (block s)
            in Some (s\<lparr>block := x', weak_handles := weak_handles s - 1,
                 block_dtor_due := block_dtor_due s + (if weak_refs x' = 0 then 1 else 0)\<rparr>))
      else None)"
| "step cls p Run_block_dtor s =
     (if 1 \<le> block_dtor_due s
      then Some (s\<lparr>events := events s @ [Block_dtor (block_dtor (block s)) p],
                   block_dtor_due := block_dtor_due s - 1\<rparr>)
      else None)"
| "step cls p Upgrade_weak s =
     (if 1 \<le> weak_handles s
      then Some (s\<lparr>weak_handles := weak_handles s - 1,
                   upgrading := upgrading s @ [strong_refs (block s)]\<rparr>)
      else None)"
| "step cls p (Run_cas i) s =
     (if i < length (upgrading s)
      then (let count = upgrading s ! i
            in if count = 0
               then Some (s\<lparr>events := events s @ [Upgrade_returned False],
                            weak_handles := weak_handles s + 1,
                            upgrading := drop_nth i (upgrading s)\<rparr>)
               else if strong_refs (block s) = count
               then (if count = - 1 then None
                     else Some (s\<lparr>block := (block s)\<lparr>strong_refs := count + 1\<rparr>,
                                  events := events s @ [Upgrade_returned True],
                                  strong_handles := strong_handles s + 1,
                                  weak_handles := weak_handles s + 1,
                                  upgrading := drop_nth i (upgrading s)\<rparr>))
               else Some (s\<lparr>upgrading := (upgrading s)[i := strong_refs (block s)]\<rparr>))
      else None)"

fun run ::
  "intptr_t \<Rightarrow> intptr_t \<Rightarrow> action list \<Rightarrow> ('aid, 'nid, 'sys, 'dd, 'bd) execution
   \<Rightarrow> ('aid, 'nid, 'sys, 'dd, 'bd) execution option" where
  "run cls p [] s = Some s"
| "run cls p (a # as) s = (case step cls p a s of None \<Rightarrow> None | Some s' \<Rightarrow> run cls p as s')"

text \<open>The steps one call makes when no other thread comes in between.\<close>

definition release_schedule :: "('aid, 'nid, 'sys, 'dd, 'bd) actor_control_block \<Rightarrow> action list" where
  "release_schedule x =
     Release # (if strong_refs x = 1
                then Run_data_dtor # Run_implicit_release
                       # (if weak_refs x = 1 then [Run_block_dtor] else [])
                else [])"

definition release_weak_schedule :: "('aid, 'nid, 'sys, 'dd, 'bd) actor_control_block \<Rightarrow> action list" where
  "release_weak_schedule x = Release_weak # (if weak_refs x = 1 then [Run_block_dtor] else [])"

definition upgrade_weak_schedule :: "('aid, 'nid, 'sys, 'dd, 'bd) execution \<Rightarrow> action list" where
  "upgrade_weak_schedule s = [Upgrade_weak, Run_cas (length (upgrading s))]"

text \<open>The destructions among the events, in their order.\<close>

datatype destruction = Data | Storage

fun destructions :: "('dd, 'bd) event list \<Rightarrow> destruction list" where
  "destructions [] = []"
| "destructions (Data_dtor d a # es) = Data # destructions es"
| "destructions (Block_dtor d a # es) = Storage # destructions es"
| "destructions (Upgrade_returned r # es) = destructions es"

text \<open>
  The invariant of executions. The strong count is the number of strong handles. The weak
  count is the number of weak handles, at rest or in an upgrade, plus one for the implicit
  weak reference as long as the strong side has not given it up. An upgrade that has
  observed zero did so when no strong handle was left. The life of the block is in one of
  six phases: alive; a release has reached zero and owes the data destructor; the data is
  destructed and the implicit weak reference is still held; only weak handles are left; a
  weak release has reached zero and owes the block destructor; the storage is released.
\<close>

definition consistent :: "('aid, 'nid, 'sys, 'dd, 'bd) execution \<Rightarrow> bool" where
  "consistent s \<longleftrightarrow>
     unat (strong_refs (block s)) = strong_handles s
   \<and> unat (weak_refs (block s)) =
       weak_handles s + length (upgrading s) + (if 0 < strong_handles s then 1 else 0)
       + data_dtor_due s + implicit_release_due s
   \<and> (\<forall>c \<in> set (upgrading s). c = 0 \<longrightarrow> strong_handles s = 0)
   \<and> (if 0 < strong_handles s
      then data_dtor_due s = 0 \<and> implicit_release_due s = 0 \<and> block_dtor_due s = 0
           \<and> destructions (events s) = []
      else (data_dtor_due s = 1 \<and> implicit_release_due s = 0 \<and> block_dtor_due s = 0
              \<and> destructions (events s) = [])
         \<or> (data_dtor_due s = 0 \<and> implicit_release_due s = 1 \<and> block_dtor_due s = 0
              \<and> destructions (events s) = [Data])
         \<or> (data_dtor_due s = 0 \<and> implicit_release_due s = 0 \<and> block_dtor_due s = 0
              \<and> destructions (events s) = [Data] \<and> weak_refs (block s) \<noteq> 0)
         \<or> (data_dtor_due s = 0 \<and> implicit_release_due s = 0 \<and> block_dtor_due s = 1
              \<and> destructions (events s) = [Data] \<and> weak_refs (block s) = 0)
         \<or> (data_dtor_due s = 0 \<and> implicit_release_due s = 0 \<and> block_dtor_due s = 0
              \<and> destructions (events s) = [Data, Storage] \<and> weak_refs (block s) = 0))"

section \<open>Facts about the model\<close>

subsection \<open>Pointers as signed integers\<close>

text \<open>
  The sum in \<open>get\<close> and the difference in \<open>from_ptr\<close> are those of the machine. The
  C++ expressions are additions of \<^verbatim>\<open>intptr_t\<close> values, defined when the result is in
  range; there the word operations give the same signed value.
\<close>

lemma get_signed:
  "- (2 ^ 63) \<le> sint this + sint cls \<Longrightarrow> sint this + sint cls < 2 ^ 63 \<Longrightarrow>
     sint (get cls this) = sint this + sint cls"
  by (simp add: get_def sint_word_ariths signed_take_bit_int_eq_self)

lemma from_ptr_signed:
  "- (2 ^ 63) \<le> sint ptr - sint cls \<Longrightarrow> sint ptr - sint cls < 2 ^ 63 \<Longrightarrow>
     sint (from_ptr cls ptr) = sint ptr - sint cls"
  by (simp add: from_ptr_def sint_word_ariths signed_take_bit_int_eq_self)

subsection \<open>Words and lists\<close>

lemma destructions_append [simp]: "destructions (es @ fs) = destructions es @ destructions fs"
  by (induction es rule: destructions.induct) simp_all

lemma unat_dec: "unat (x :: size_t) = Suc n \<Longrightarrow> unat (x - 1) = n"
  by (metis diff_Suc_1 unat_minus_one unat_eq_0 nat.distinct(1))

lemma unat_dec_zero: "unat (x :: size_t) = Suc n \<Longrightarrow> (x - 1 = 0) = (n = 0)"
  by (metis unat_dec unat_eq_0)

lemma unat_inc: "(x :: size_t) \<noteq> - 1 \<Longrightarrow> unat (x + 1) = Suc (unat x)"
  by (metis add.commute add_eq_0_iff unatSuc)

lemma consistent_start: "consistent (start (actor_control_block x y sys dd bd))"
  by (simp add: consistent_def start_def actor_control_block_def)

lemma length_drop_nth: "i < length xs \<Longrightarrow> length (drop_nth i xs) = length xs - 1"
  by (simp add: drop_nth_def)

lemma set_drop_nth: "set (drop_nth i xs) \<subseteq> set xs"
  by (auto simp: drop_nth_def dest: in_set_takeD in_set_dropD)

lemma unat_gt_one: "unat (x :: size_t) = Suc n \<Longrightarrow> x \<noteq> 1 \<Longrightarrow> 0 < n"
  using unat_dec_zero [of x n] by auto

lemma inc_eq_zero: "((x :: size_t) + 1 = 0) = (x = - 1)"
  by (simp add: eq_neg_iff_add_eq_0)

subsection \<open>Every step keeps the invariant\<close>

lemma step_Add_ref:
  "consistent s \<Longrightarrow> step cls p Add_ref s = Some s' \<Longrightarrow> consistent s'"
  by (clarsimp simp: consistent_def intrusive_ptr_add_ref_def unat_inc split: if_splits)

lemma step_Run_block_dtor:
  "consistent s \<Longrightarrow> step cls p Run_block_dtor s = Some s' \<Longrightarrow> consistent s'"
  by (clarsimp simp: consistent_def unat_eq_0 split: if_splits)

lemma step_Run_data_dtor:
  "consistent s \<Longrightarrow> step cls p Run_data_dtor s = Some s' \<Longrightarrow> consistent s'"
  by (clarsimp simp: consistent_def  split: if_splits)

lemma step_Add_weak_ref:
  "consistent s \<Longrightarrow> step cls p Add_weak_ref s = Some s' \<Longrightarrow> consistent s'"
  apply (clarsimp simp: consistent_def intrusive_ptr_add_weak_ref_def unat_inc inc_eq_zero split: if_splits)
  apply (elim disjE; clarsimp simp: unat_inc)
  done

lemma step_Release:
  "consistent s \<Longrightarrow> step cls p Release s = Some s' \<Longrightarrow> consistent s'"
  apply (cases "strong_handles s")
  apply (clarsimp simp: consistent_def dec_strong_def Let_def unat_dec unat_dec_zero split: if_splits)
  apply (clarsimp simp: consistent_def dec_strong_def Let_def unat_dec unat_dec_zero split: if_splits)
  apply (frule (1) unat_gt_one)
  apply auto
  done

lemma step_Run_implicit_release:
  "consistent s \<Longrightarrow> step cls p Run_implicit_release s = Some s' \<Longrightarrow> consistent s'"
  apply (clarsimp simp: consistent_def dec_weak_def Let_def split: if_splits)
  apply (simp_all add: unat_dec unat_dec_zero)
  done

lemma step_Release_weak:
  "consistent s \<Longrightarrow> step cls p Release_weak s = Some s' \<Longrightarrow> consistent s'"
  apply (cases "weak_handles s")
  apply (clarsimp simp: consistent_def dec_weak_def Let_def split: if_splits)
  apply (clarsimp simp: consistent_def dec_weak_def Let_def split: if_splits)
  apply (simp_all add: unat_dec unat_dec_zero)
  apply (elim disjE; clarsimp simp: unat_eq_0)
  done

lemma step_Upgrade_weak:
  "consistent s \<Longrightarrow> step cls p Upgrade_weak s = Some s' \<Longrightarrow> consistent s'"
  apply (cases "weak_handles s")
  apply (clarsimp simp: consistent_def split: if_splits)
  apply (clarsimp simp: consistent_def unat_eq_0 split: if_splits)
  done

lemma in_set_drop_nth: "x \<in> set (drop_nth i xs) \<Longrightarrow> x \<in> set xs"
  using set_drop_nth [of i xs] by blast

lemma step_Run_cas:
  assumes c: "consistent s" and st: "step cls p (Run_cas i) s = Some s'"
  shows "consistent s'"
proof -
  from st have i: "i < length (upgrading s)"
    by (simp split: if_splits)
  then have mem: "upgrading s ! i \<in> set (upgrading s)"
    by simp
  from i have len: "Suc (length (drop_nth i (upgrading s))) = length (upgrading s)"
    by (simp add: length_drop_nth)
  consider (fail) "upgrading s ! i = 0"
    | (success) "upgrading s ! i \<noteq> 0" "strong_refs (block s) = upgrading s ! i"
    | (retry) "upgrading s ! i \<noteq> 0" "strong_refs (block s) \<noteq> upgrading s ! i"
    by blast
  then show ?thesis
  proof cases
    case fail
    with st i have s': "s' = s\<lparr>events := events s @ [Upgrade_returned False],
        weak_handles := weak_handles s + 1, upgrading := drop_nth i (upgrading s)\<rparr>"
      by simp
    from c fail mem have dead: "strong_handles s = 0"
      by (auto simp: consistent_def)
    from c dead len show ?thesis
      unfolding s' consistent_def
      by (clarsimp simp: unat_eq_0)
  next
    case success
    with st i have ov: "upgrading s ! i \<noteq> - 1"
      by (auto simp: Let_def split: if_splits)
    with st i success have s': "s' = s\<lparr>block := (block s)\<lparr>strong_refs := upgrading s ! i + 1\<rparr>,
        events := events s @ [Upgrade_returned True],
        strong_handles := strong_handles s + 1,
        weak_handles := weak_handles s + 1, upgrading := drop_nth i (upgrading s)\<rparr>"
      by (simp add: Let_def)
    from c success have alive: "0 < strong_handles s"
      by (auto simp: consistent_def unat_eq_0 intro: gr0I)
    from c alive len ov success show ?thesis
      unfolding s' consistent_def
      by (auto simp: unat_inc dest: in_set_drop_nth)
  next
    case retry
    with st i have s': "s' = s\<lparr>upgrading := (upgrading s)[i := strong_refs (block s)]\<rparr>"
      by simp
    have "\<forall>c \<in> set ((upgrading s)[i := strong_refs (block s)]). c = 0 \<longrightarrow> strong_handles s = 0"
      using c set_update_subset_insert [of "upgrading s" i "strong_refs (block s)"]
      by (auto simp: consistent_def unat_eq_0)
    with c show ?thesis
      unfolding s' consistent_def
      by (cases "0 < strong_handles s") simp_all
  qed
qed

lemma step_consistent:
  "consistent s \<Longrightarrow> step cls p a s = Some s' \<Longrightarrow> consistent s'"
  by (cases a)
    (blast intro: step_Add_ref step_Add_weak_ref step_Release step_Release_weak
      step_Upgrade_weak step_Run_data_dtor step_Run_implicit_release step_Run_block_dtor
      step_Run_cas)+

lemma run_consistent:
  "consistent s \<Longrightarrow> run cls p as s = Some s' \<Longrightarrow> consistent s'"
  by (induction as arbitrary: s) (auto split: option.splits dest: step_consistent)

lemma reachable_consistent:
  "run cls p as (start (actor_control_block k n sys ddtor bdtor)) = Some s \<Longrightarrow> consistent s"
  by (rule run_consistent [OF consistent_start])

lemma strong_zero_iff: "consistent s \<Longrightarrow> strong_refs (block s) = 0 \<longleftrightarrow> strong_handles s = 0"
  by (auto simp: consistent_def unat_eq_0)

text \<open>Once the storage is released no step is possible: nothing touches the block again.\<close>

lemma freed_is_final:
  assumes c: "consistent s" and f: "Storage \<in> set (destructions (events s))"
  shows "step cls p a s = None"
proof -
  from c f have dead: "strong_handles s = 0"
    unfolding consistent_def by (cases "0 < strong_handles s") auto
  from c f dead have dues: "data_dtor_due s = 0" "implicit_release_due s = 0"
      "block_dtor_due s = 0" "weak_refs (block s) = 0"
    unfolding consistent_def by auto
  from c dead dues have rest: "weak_handles s = 0" "upgrading s = []"
    unfolding consistent_def by auto
  from dead dues rest show ?thesis
    by (cases a) simp_all
qed

subsection \<open>What a step does to the block and to the events\<close>

lemma upgrade_weak_loop_eq:
  "upgrade_weak_loop count x =
     (if count = 0 \<or> strong_refs x = 0 then (False, x)
      else (True, x\<lparr>strong_refs := strong_refs x + 1\<rparr>))"
  by (induction count x rule: upgrade_weak_loop.induct) auto

lemma step_const_members:
  "step cls p a s = Some s' \<Longrightarrow> const_members (block s') = const_members (block s)"
  by (cases a)
    (auto simp: const_members_def intrusive_ptr_add_ref_def intrusive_ptr_add_weak_ref_def
      dec_strong_def dec_weak_def Let_def split: if_splits)

lemma step_events:
  "step cls p a s = Some s' \<Longrightarrow>
     events s' = events s @
       (case a of
          Run_data_dtor \<Rightarrow> [Data_dtor (data_dtor (block s)) (get cls p)]
        | Run_block_dtor \<Rightarrow> [Block_dtor (block_dtor (block s)) p]
        | Run_cas i \<Rightarrow>
            (if upgrading s ! i = 0 then [Upgrade_returned False]
             else if strong_refs (block s) = upgrading s ! i then [Upgrade_returned True]
             else [])
        | _ \<Rightarrow> [])"
  by (cases a) (auto simp: Let_def split: if_splits)

lemma dead_step:
  assumes "consistent s" "strong_refs (block s) = 0" "step cls p a s = Some s'"
  shows "strong_refs (block s') = 0
    \<and> (\<exists>es. events s' = events s @ es \<and> Upgrade_returned True \<notin> set es)"
proof -
  from assms(1,2) have "strong_handles s = 0"
    by (simp add: consistent_def)
  with assms(2,3) show ?thesis
    by (cases a) (auto simp: Let_def dec_weak_def intrusive_ptr_add_weak_ref_def split: if_splits)
qed

lemma dead_run:
  "consistent s \<Longrightarrow> strong_refs (block s) = 0 \<Longrightarrow> run cls p as s = Some s' \<Longrightarrow>
     strong_refs (block s') = 0
     \<and> (\<exists>es. events s' = events s @ es \<and> Upgrade_returned True \<notin> set es)"
proof (induction as arbitrary: s)
  case Nil
  then show ?case by simp
next
  case (Cons a as)
  from Cons.prems(3) obtain t where t: "step cls p a s = Some t" and r: "run cls p as t = Some s'"
    by (auto split: option.splits)
  from dead_step [OF Cons.prems(1,2) t] obtain es where
    z: "strong_refs (block t) = 0" and e: "events t = events s @ es" "Upgrade_returned True \<notin> set es"
    by blast
  from step_consistent [OF Cons.prems(1) t] have ct: "consistent t" .
  from Cons.IH [OF ct z r] obtain fs where
    "strong_refs (block s') = 0" "events s' = events t @ fs" "Upgrade_returned True \<notin> set fs"
    by blast
  with e show ?case
    by auto
qed

text \<open>
  The only callbacks an execution calls are the two of the block, the data destructor on
  the actor pointer and the block destructor on the block pointer.
\<close>

lemma step_callbacks:
  assumes "step cls p a s = Some s'"
  shows "\<exists>es. events s' = events s @ es
    \<and> set es \<subseteq> {Data_dtor (data_dtor (block s)) (get cls p),
                  Block_dtor (block_dtor (block s)) p,
                  Upgrade_returned True, Upgrade_returned False}"
  using step_events [OF assms] by (cases a) auto

lemma run_callbacks:
  "run cls p as s = Some s' \<Longrightarrow>
     \<exists>es. events s' = events s @ es
       \<and> set es \<subseteq> {Data_dtor (data_dtor (block s)) (get cls p),
                     Block_dtor (block_dtor (block s)) p,
                     Upgrade_returned True, Upgrade_returned False}"
proof (induction as arbitrary: s)
  case Nil
  then show ?case by simp
next
  case (Cons a as)
  from Cons.prems obtain t where t: "step cls p a s = Some t" and r: "run cls p as t = Some s'"
    by (auto split: option.splits)
  from step_const_members [OF t] have same: "data_dtor (block t) = data_dtor (block s)"
      "block_dtor (block t) = block_dtor (block s)"
    by (simp_all add: const_members_def)
  from step_callbacks [OF t] obtain es where es: "events t = events s @ es"
      "set es \<subseteq> {Data_dtor (data_dtor (block s)) (get cls p),
                  Block_dtor (block_dtor (block s)) p,
                  Upgrade_returned True, Upgrade_returned False}"
    by blast
  from Cons.IH [OF r] same obtain fs where fs: "events s' = events t @ fs"
      "set fs \<subseteq> {Data_dtor (data_dtor (block s)) (get cls p),
                  Block_dtor (block_dtor (block s)) p,
                  Upgrade_returned True, Upgrade_returned False}"
    by auto
  from es fs have "events s' = events s @ (es @ fs)" by simp
  moreover from es fs have "set (es @ fs) \<subseteq> {Data_dtor (data_dtor (block s)) (get cls p),
                  Block_dtor (block_dtor (block s)) p,
                  Upgrade_returned True, Upgrade_returned False}"
    by simp
  ultimately show ?case by blast
qed

lemma reachable_callbacks:
  assumes "run cls p as (start (actor_control_block k n sys ddtor bdtor)) = Some s"
  shows "set (events s) \<subseteq> {Data_dtor ddtor (get cls p), Block_dtor bdtor p,
      Upgrade_returned True, Upgrade_returned False}"
  using run_callbacks [OF assms] by (simp add: start_def actor_control_block_def)

subsection \<open>A call without interference is a run of its steps\<close>

text \<open>
  The three operations modelled as functions are the executions in which no other thread
  steps in: running the steps of one call in a row leaves the block and the events the
  function gives.
\<close>

lemma release_uninterrupted:
  assumes "1 \<le> strong_handles s"
  shows "\<exists>s'. run cls p (release_schedule (block s)) s = Some s'
    \<and> block s' = fst (intrusive_ptr_release cls p (block s))
    \<and> events s' = events s @ snd (intrusive_ptr_release cls p (block s))"
  using assms
  by (simp add: release_schedule_def intrusive_ptr_release_def intrusive_ptr_release_weak_def
      dec_strong_def dec_weak_def Let_def)

lemma release_weak_uninterrupted:
  assumes "1 \<le> weak_handles s"
  shows "\<exists>s'. run cls p (release_weak_schedule (block s)) s = Some s'
    \<and> block s' = fst (intrusive_ptr_release_weak p (block s))
    \<and> events s' = events s @ snd (intrusive_ptr_release_weak p (block s))"
  using assms
  by (simp add: release_weak_schedule_def intrusive_ptr_release_weak_def dec_weak_def Let_def)

lemma upgrade_weak_uninterrupted:
  assumes "1 \<le> weak_handles s" "strong_refs (block s) \<noteq> - 1"
  shows "\<exists>s'. run cls p (upgrade_weak_schedule s) s = Some s'
    \<and> block s' = snd (intrusive_ptr_upgrade_weak (block s))
    \<and> events s' = events s @ [Upgrade_returned (fst (intrusive_ptr_upgrade_weak (block s)))]"
  using assms
  by (simp add: upgrade_weak_schedule_def intrusive_ptr_upgrade_weak_def upgrade_weak_loop_eq
      Let_def drop_nth_def)

subsection \<open>Unfolding for concrete runs\<close>

lemmas eval_defs = start_def actor_control_block_def intrusive_ptr_add_ref_def
  intrusive_ptr_add_weak_ref_def dec_strong_def dec_weak_def get_def Let_def drop_nth_def
  intrusive_ptr_release_def intrusive_ptr_release_weak_def intrusive_ptr_upgrade_weak_def

section \<open>Construction\<close>

text \<open>
  C4. Whatever actor id, node id, system pointer and destruction callbacks it is given,
  the constructor sets the strong and the weak count to 1 and stores the five other
  arguments as they are; the accessors \<open>id_acb\<close> and \<open>node\<close> return the two identity
  members.
\<close>

theorem ctor_initial_state:
  "strong_refs (actor_control_block x y sys ddtor bdtor) = 1
   \<and> weak_refs (actor_control_block x y sys ddtor bdtor) = 1
   \<and> aid (actor_control_block x y sys ddtor bdtor) = x
   \<and> nid (actor_control_block x y sys ddtor bdtor) = y
   \<and> home_system (actor_control_block x y sys ddtor bdtor) = sys
   \<and> data_dtor (actor_control_block x y sys ddtor bdtor) = ddtor
   \<and> block_dtor (actor_control_block x y sys ddtor bdtor) = bdtor
   \<and> id_acb (actor_control_block x y sys ddtor bdtor) = x
   \<and> node (actor_control_block x y sys ddtor bdtor) = y"
  by (simp add: actor_control_block_def id_acb_def node_def)

section \<open>Control block and actor data resolve to each other\<close>

text \<open>
  C10. \<open>get\<close> and \<open>from_ptr\<close> are inverse to each other at the offset
  \<^verbatim>\<open>CAF_CACHE_LINE_SIZE\<close>: from a control block pointer \<open>x\<close>, \<open>from_ptr (get x) = x\<close>;
  from an actor pointer \<open>p\<close>, \<open>get (from_ptr p) = p\<close>; and the two pointers are
  \<open>cls\<close> apart. This is the machine's arithmetic; where the sum of the two
  \<^verbatim>\<open>intptr_t\<close> values is in range, as C++ requires of it, the result read as a signed
  integer is that sum.
\<close>

theorem get_from_inverse:
  "from_ptr cls (get cls x) = x
   \<and> get cls (from_ptr cls p) = p
   \<and> get cls x - x = cls
   \<and> p - from_ptr cls p = cls
   \<and> (- (2 ^ 63) \<le> sint x + sint cls \<and> sint x + sint cls < 2 ^ 63 \<longrightarrow>
        sint (get cls x) = sint x + sint cls)
   \<and> (- (2 ^ 63) \<le> sint p - sint cls \<and> sint p - sint cls < 2 ^ 63 \<longrightarrow>
        sint (from_ptr cls p) = sint p - sint cls)"
  by (simp add: get_def from_ptr_def sint_word_ariths signed_take_bit_int_eq_self)

theorem get_from_inverse_witness:
  "- (2 ^ 63) \<le> sint (4096 :: intptr_t) + sint (64 :: intptr_t)
   \<and> sint (4096 :: intptr_t) + sint (64 :: intptr_t) < 2 ^ 63
   \<and> - (2 ^ 63) \<le> sint (4160 :: intptr_t) - sint (64 :: intptr_t)
   \<and> sint (4160 :: intptr_t) - sint (64 :: intptr_t) < 2 ^ 63
   \<and> get 64 4096 = 4160
   \<and> from_ptr 64 4160 = 4096
   \<and> from_ptr 64 (get 64 4096) = 4096
   \<and> sint (get 64 4096) = 4160
   \<and> sint (from_ptr 64 4160) = 4096"
proof -
  have up: "- (2 ^ 63) \<le> sint (4096 :: intptr_t) + sint (64 :: intptr_t)
      \<and> sint (4096 :: intptr_t) + sint (64 :: intptr_t) < 2 ^ 63"
    by simp
  have down: "- (2 ^ 63) \<le> sint (4160 :: intptr_t) - sint (64 :: intptr_t)
      \<and> sint (4160 :: intptr_t) - sint (64 :: intptr_t) < 2 ^ 63"
    by simp
  note inst = get_from_inverse [where cls = 64 and x = 4096 and p = 4160]
  note signed_up = inst [THEN conjunct2, THEN conjunct2, THEN conjunct2, THEN conjunct2,
      THEN conjunct1, rule_format, OF up]
  note signed_down = inst [THEN conjunct2, THEN conjunct2, THEN conjunct2, THEN conjunct2,
      THEN conjunct2, rule_format, OF down]
  have computed: "get 64 4096 = 4160 \<and> from_ptr 64 4160 = 4096"
    by (simp add: get_def from_ptr_def)
  from up down computed inst [THEN conjunct1] signed_up signed_down show ?thesis
    by simp
qed

section \<open>The increments and the constant members\<close>

text \<open>
  C6. \<open>intrusive_ptr_add_ref\<close> adds one to the strong count and leaves the weak count and
  the five constant members as they are; \<open>intrusive_ptr_add_weak_ref\<close> adds one to the weak
  count and leaves the strong count and the constant members as they are. The addition is
  that of \<^verbatim>\<open>size_t\<close>: the count read as a number grows by one unless it was at its
  maximum. No operation changes a constant member: not the two increments, not the three
  operations defined out of line, and no step of an execution.
\<close>

theorem only_the_counters_change:
  "strong_refs (intrusive_ptr_add_ref x) = strong_refs x + 1
   \<and> weak_refs (intrusive_ptr_add_ref x) = weak_refs x
   \<and> const_members (intrusive_ptr_add_ref x) = const_members x
   \<and> (strong_refs x \<noteq> - 1 \<longrightarrow>
        unat (strong_refs (intrusive_ptr_add_ref x)) = unat (strong_refs x) + 1)
   \<and> weak_refs (intrusive_ptr_add_weak_ref x) = weak_refs x + 1
   \<and> strong_refs (intrusive_ptr_add_weak_ref x) = strong_refs x
   \<and> const_members (intrusive_ptr_add_weak_ref x) = const_members x
   \<and> (weak_refs x \<noteq> - 1 \<longrightarrow>
        unat (weak_refs (intrusive_ptr_add_weak_ref x)) = unat (weak_refs x) + 1)
   \<and> const_members (fst (intrusive_ptr_release cls p x)) = const_members x
   \<and> const_members (fst (intrusive_ptr_release_weak p x)) = const_members x
   \<and> const_members (snd (intrusive_ptr_upgrade_weak x)) = const_members x
   \<and> (\<forall>a s s'. step cls p a s = Some s' \<longrightarrow>
        const_members (block s') = const_members (block s))"
proof -
  have "const_members (fst (intrusive_ptr_release cls p x)) = const_members x"
    by (simp add: const_members_def intrusive_ptr_release_def intrusive_ptr_release_weak_def
        dec_strong_def dec_weak_def Let_def)
  moreover have "const_members (fst (intrusive_ptr_release_weak p x)) = const_members x"
    by (simp add: const_members_def intrusive_ptr_release_weak_def dec_weak_def Let_def)
  moreover have "const_members (snd (intrusive_ptr_upgrade_weak x)) = const_members x"
    by (simp add: const_members_def intrusive_ptr_upgrade_weak_def upgrade_weak_loop_eq)
  moreover have "\<forall>a s s'. step cls p a s = Some s' \<longrightarrow>
        const_members (block s') = const_members (block s)"
    by (blast dest: step_const_members)
  ultimately show ?thesis
    by (simp add: intrusive_ptr_add_ref_def intrusive_ptr_add_weak_ref_def const_members_def
        unat_inc)
qed

theorem only_the_counters_change_witness:
  "(let b = actor_control_block (7::nat) (3::nat) (0::nat) (1::nat) (2::nat);
        s' = \<lparr>block = b\<lparr>strong_refs := 0\<rparr>, events = ([] :: (nat, nat) event list),
              strong_handles = 0, weak_handles = 0, data_dtor_due = 1,
              implicit_release_due = 0, block_dtor_due = 0, upgrading = []\<rparr>
    in strong_refs b \<noteq> - 1
     \<and> unat (strong_refs (intrusive_ptr_add_ref b)) = 2
     \<and> weak_refs b \<noteq> - 1
     \<and> unat (weak_refs (intrusive_ptr_add_weak_ref b)) = 2
     \<and> const_members (intrusive_ptr_add_ref b) = (7, 3, 0, 1, 2)
     \<and> const_members (intrusive_ptr_add_weak_ref b) = (7, 3, 0, 1, 2)
     \<and> step 64 4096 Release (start b) = Some s'
     \<and> const_members (block s') = (7, 3, 0, 1, 2))"
proof -
  define b where "b = actor_control_block (7::nat) (3::nat) (0::nat) (1::nat) (2::nat)"
  define s' where "s' = \<lparr>block = b\<lparr>strong_refs := 0\<rparr>, events = ([] :: (nat, nat) event list),
      strong_handles = 0, weak_handles = 0, data_dtor_due = 1, implicit_release_due = 0,
      block_dtor_due = 0, upgrading = []\<rparr>"
  have st: "step 64 4096 Release (start b) = Some s'"
    by (simp add: b_def s'_def eval_defs)
  have cm: "const_members b = (7, 3, 0, 1, 2)"
    by (simp add: b_def const_members_def actor_control_block_def)
  have n1: "strong_refs b \<noteq> - 1" and n2: "weak_refs b \<noteq> - 1"
    by (simp_all add: b_def actor_control_block_def)
  have u1: "unat (strong_refs b) = 1" and u2: "unat (weak_refs b) = 1"
    by (simp_all add: b_def actor_control_block_def)
  from only_the_counters_change [where x = b and cls = 64 and p = 4096] st cm n1 n2 u1 u2
  show ?thesis
    unfolding Let_def b_def [symmetric] s'_def [symmetric]
    apply (elim conjE)
    apply (drule spec [where x = Release])
    apply (drule spec [where x = "start b"])
    apply (drule spec [where x = s'])
    apply (simp add: start_def)
    done
qed

section \<open>The data is destructed once, by the release that reaches zero\<close>

text \<open>
  C1. A call of \<open>intrusive_ptr_release\<close> lowers the strong count by one. If the count was 1
  it calls the data destructor on the actor's data once and then makes one call of
  \<open>intrusive_ptr_release_weak\<close>; otherwise it does nothing else. A weak release never calls
  the data destructor. In every state an execution reaches from a new block: the data
  destructor has been called once if the strong count is zero and no call is owed, and not
  at all otherwise; a call is owed exactly when the strong count is zero and none has been
  made; the only step that adds a call is the one that pays the owed call, and a release
  lowers the strong count by one and owes a call exactly when it found the count at 1.
  Every call of a data destructor is a call of the block's own callback on its actor
  pointer.
\<close>

theorem release_destructs_data_once:
  "strong_refs (fst (intrusive_ptr_release cls p x)) = strong_refs x - 1
    \<and> intrusive_ptr_release cls p x =
        (if strong_refs x = 1
         then (fst (intrusive_ptr_release_weak p (dec_strong x)),
               Data_dtor (data_dtor x) (get cls p)
                 # snd (intrusive_ptr_release_weak p (dec_strong x)))
         else (dec_strong x, []))
    \<and> Data \<notin> set (destructions (snd (intrusive_ptr_release_weak p x)))
    \<and> (\<forall>as s. run cls p as (start (actor_control_block k n sys ddtor bdtor)) = Some s \<longrightarrow>
          count_list (destructions (events s)) Data =
            (if strong_refs (block s) = 0 \<and> data_dtor_due s = 0 then 1 else 0)
          \<and> data_dtor_due s =
            (if strong_refs (block s) = 0 \<and> Data \<notin> set (destructions (events s))
             then 1 else 0)
          \<and> (\<forall>a s'. step cls p a s = Some s' \<longrightarrow>
                count_list (destructions (events s')) Data =
                  count_list (destructions (events s)) Data
                  + (if a = Run_data_dtor then 1 else 0)
                \<and> (a = Release \<longrightarrow>
                      strong_refs (block s') = strong_refs (block s) - 1
                      \<and> data_dtor_due s' = (if strong_refs (block s) = 1 then 1 else 0)))
          \<and> (\<forall>d q. Data_dtor d q \<in> set (events s) \<longrightarrow> d = ddtor \<and> q = get cls p))"
proof -
  have call: "intrusive_ptr_release cls p x =
        (if strong_refs x = 1
         then (fst (intrusive_ptr_release_weak p (dec_strong x)),
               Data_dtor (data_dtor x) (get cls p)
                 # snd (intrusive_ptr_release_weak p (dec_strong x)))
         else (dec_strong x, []))"
    by (simp add: intrusive_ptr_release_def dec_strong_def Let_def split_beta)
  have dec: "strong_refs (fst (intrusive_ptr_release cls p x)) = strong_refs x - 1"
    by (simp add: call intrusive_ptr_release_weak_def dec_strong_def dec_weak_def Let_def)
  have weak: "Data \<notin> set (destructions (snd (intrusive_ptr_release_weak p x)))"
    by (simp add: intrusive_ptr_release_weak_def Let_def)
  have reachable:
    "count_list (destructions (events s)) Data =
        (if strong_refs (block s) = 0 \<and> data_dtor_due s = 0 then 1 else 0)
      \<and> data_dtor_due s =
        (if strong_refs (block s) = 0 \<and> Data \<notin> set (destructions (events s))
         then 1 else 0)
      \<and> (\<forall>a s'. step cls p a s = Some s' \<longrightarrow>
            count_list (destructions (events s')) Data =
              count_list (destructions (events s)) Data
              + (if a = Run_data_dtor then 1 else 0)
            \<and> (a = Release \<longrightarrow>
                  strong_refs (block s') = strong_refs (block s) - 1
                  \<and> data_dtor_due s' = (if strong_refs (block s) = 1 then 1 else 0)))
      \<and> (\<forall>d q. Data_dtor d q \<in> set (events s) \<longrightarrow> d = ddtor \<and> q = get cls p)"
    if reach: "run cls p as (start (actor_control_block k n sys ddtor bdtor)) = Some s"
    for as s
  proof -
    from reach have c: "consistent s"
      by (rule reachable_consistent)
    have z: "strong_refs (block s) = 0 \<longleftrightarrow> strong_handles s = 0"
      using c by (rule strong_zero_iff)
    from c have once: "count_list (destructions (events s)) Data =
          (if strong_refs (block s) = 0 \<and> data_dtor_due s = 0 then 1 else 0)"
      unfolding z consistent_def by (cases "0 < strong_handles s") auto
    from c have due: "data_dtor_due s =
          (if strong_refs (block s) = 0 \<and> Data \<notin> set (destructions (events s))
           then 1 else 0)"
      unfolding z consistent_def by (cases "0 < strong_handles s") auto
    have steps: "count_list (destructions (events s')) Data =
              count_list (destructions (events s)) Data
              + (if a = Run_data_dtor then 1 else 0)
            \<and> (a = Release \<longrightarrow>
                  strong_refs (block s') = strong_refs (block s) - 1
                  \<and> data_dtor_due s' = (if strong_refs (block s) = 1 then 1 else 0))"
      if st: "step cls p a s = Some s'" for a s'
    proof
      from step_events [OF st]
      show "count_list (destructions (events s')) Data =
              count_list (destructions (events s)) Data
              + (if a = Run_data_dtor then 1 else 0)"
        by (cases a) simp_all
      show "a = Release \<longrightarrow>
          strong_refs (block s') = strong_refs (block s) - 1
          \<and> data_dtor_due s' = (if strong_refs (block s) = 1 then 1 else 0)"
      proof
        assume a: "a = Release"
        with st have sh: "0 < strong_handles s"
          by (simp split: if_splits)
        with c have "data_dtor_due s = 0"
          by (simp add: consistent_def)
        with st a sh show "strong_refs (block s') = strong_refs (block s) - 1
            \<and> data_dtor_due s' = (if strong_refs (block s) = 1 then 1 else 0)"
          by (auto simp: dec_strong_def Let_def)
      qed
    qed
    from reachable_callbacks [OF reach]
    have callee: "\<forall>d q. Data_dtor d q \<in> set (events s) \<longrightarrow> d = ddtor \<and> q = get cls p"
      by auto
    from once due steps callee show ?thesis
      by blast
  qed
  from call dec weak reachable show ?thesis
    by blast
qed

theorem release_destructs_data_once_witness:
  "(let b = actor_control_block (7::nat) (3::nat) (0::nat) (1::nat) (2::nat);
        s = \<lparr>block = b\<lparr>strong_refs := 0\<rparr>, events = [], strong_handles = 0,
             weak_handles = 0, data_dtor_due = 1, implicit_release_due = 0,
             block_dtor_due = 0, upgrading = []\<rparr>;
        s' = s\<lparr>events := [Data_dtor 1 4160], data_dtor_due := 0, implicit_release_due := 1\<rparr>
    in run 64 4096 [Add_ref, Release, Release] (start b) = Some s
     \<and> step 64 4096 Run_data_dtor s = Some s'
     \<and> intrusive_ptr_release 64 4096 b =
          (b\<lparr>strong_refs := 0, weak_refs := 0\<rparr>, [Data_dtor 1 4160, Block_dtor 2 4096])
     \<and> strong_refs (fst (intrusive_ptr_release 64 4096 (intrusive_ptr_add_ref b))) = 1
     \<and> snd (intrusive_ptr_release 64 4096 (intrusive_ptr_add_ref b)) = []
     \<and> count_list (destructions (events s)) Data = 0
     \<and> data_dtor_due s = 1
     \<and> count_list (destructions (events s')) Data = 1)"
proof -
  define b where "b = actor_control_block (7::nat) (3::nat) (0::nat) (1::nat) (2::nat)"
  define s where "s = \<lparr>block = b\<lparr>strong_refs := 0\<rparr>, events = ([] :: (nat, nat) event list),
      strong_handles = 0, weak_handles = 0, data_dtor_due = 1, implicit_release_due = 0,
      block_dtor_due = 0, upgrading = []\<rparr>"
  define s' where "s' = s\<lparr>events := [Data_dtor 1 4160], data_dtor_due := 0,
      implicit_release_due := 1\<rparr>"
  have reach: "run 64 4096 [Add_ref, Release, Release] (start b) = Some s"
    by (simp add: b_def s_def eval_defs)
  have st: "step 64 4096 Run_data_dtor s = Some s'"
    by (simp add: b_def s_def s'_def eval_defs)
  note at_one = release_destructs_data_once [where x = b and cls = 64 and p = 4096]
  note at_two = release_destructs_data_once
    [where x = "intrusive_ptr_add_ref b" and cls = 64 and p = 4096]
  note reached = at_one
    [THEN conjunct2, THEN conjunct2, THEN conjunct2, rule_format, OF reach [unfolded b_def]]
  note stepped = reached [THEN conjunct2, THEN conjunct2, THEN conjunct1, rule_format, OF st]
  have call_one: "intrusive_ptr_release 64 4096 b =
      (b\<lparr>strong_refs := 0, weak_refs := 0\<rparr>, [Data_dtor 1 4160, Block_dtor 2 4096])"
    using at_one [THEN conjunct2, THEN conjunct1] by (simp add: b_def eval_defs)
  have call_two: "strong_refs (fst (intrusive_ptr_release 64 4096 (intrusive_ptr_add_ref b))) = 1
      \<and> snd (intrusive_ptr_release 64 4096 (intrusive_ptr_add_ref b)) = []"
    using at_two [THEN conjunct1] at_two [THEN conjunct2, THEN conjunct1]
    by (simp add: b_def eval_defs)
  have before: "count_list (destructions (events s)) Data = 0 \<and> data_dtor_due s = 1"
    using reached by (simp add: s_def)
  have after: "count_list (destructions (events s')) Data = 1"
    using stepped before by simp
  from reach st call_one call_two before after show ?thesis
    unfolding Let_def b_def [symmetric] s_def [symmetric] s'_def [symmetric]
    by simp
qed

section \<open>The storage is released once, after the data, never while a strong reference lives\<close>

text \<open>
  C2. A call of \<open>intrusive_ptr_release_weak\<close> lowers the weak count by one and calls the
  block destructor once exactly when the count was 1. In every state an execution reaches
  from a new block: the destructions so far are none, the data, or the data and then the
  storage; the storage has been released exactly when the weak count is zero and no call
  of the block destructor is owed; the weak count is zero only when the strong count is
  zero and the data is destructed; while the strong count is positive the weak count is
  positive and nothing is destructed. The only step that releases the storage is the one
  that pays an owed call of the block destructor, it happens with the strong count at
  zero and the data destructed, and a weak release lowers the weak count by one and owes
  that call exactly when it found the weak count at 1. Every call of a block destructor
  is a call of the block's own callback on the block pointer. Once the storage is released
  no step of any operation is possible.
\<close>

theorem release_weak_frees_storage_last:
  "weak_refs (fst (intrusive_ptr_release_weak p x)) = weak_refs x - 1
    \<and> snd (intrusive_ptr_release_weak p x) =
        (if weak_refs x = 1 then [Block_dtor (block_dtor x) p] else [])
    \<and> (\<forall>as s. run cls p as (start (actor_control_block k n sys ddtor bdtor)) = Some s \<longrightarrow>
          (destructions (events s) = [] \<or> destructions (events s) = [Data]
            \<or> destructions (events s) = [Data, Storage])
          \<and> (Storage \<in> set (destructions (events s))
              \<longleftrightarrow> weak_refs (block s) = 0 \<and> block_dtor_due s = 0)
          \<and> block_dtor_due s =
              (if weak_refs (block s) = 0 \<and> Storage \<notin> set (destructions (events s))
               then 1 else 0)
          \<and> (weak_refs (block s) = 0 \<longrightarrow>
                strong_refs (block s) = 0 \<and> Data \<in> set (destructions (events s)))
          \<and> (strong_refs (block s) \<noteq> 0 \<longrightarrow>
                weak_refs (block s) \<noteq> 0 \<and> destructions (events s) = [])
          \<and> (\<forall>a s'. step cls p a s = Some s' \<longrightarrow>
                count_list (destructions (events s')) Storage =
                  count_list (destructions (events s)) Storage
                  + (if a = Run_block_dtor then 1 else 0)
                \<and> (a = Run_block_dtor \<longrightarrow>
                      strong_refs (block s) = 0 \<and> destructions (events s) = [Data])
                \<and> (a = Release_weak \<or> a = Run_implicit_release \<longrightarrow>
                      weak_refs (block s') = weak_refs (block s) - 1
                      \<and> block_dtor_due s' = (if weak_refs (block s) = 1 then 1 else 0)))
          \<and> (\<forall>d q. Block_dtor d q \<in> set (events s) \<longrightarrow> d = bdtor \<and> q = p)
          \<and> (Storage \<in> set (destructions (events s)) \<longrightarrow> (\<forall>a. step cls p a s = None)))"
proof -
  have dec: "weak_refs (fst (intrusive_ptr_release_weak p x)) = weak_refs x - 1"
    by (simp add: intrusive_ptr_release_weak_def dec_weak_def Let_def)
  have call: "snd (intrusive_ptr_release_weak p x) =
        (if weak_refs x = 1 then [Block_dtor (block_dtor x) p] else [])"
    by (simp add: intrusive_ptr_release_weak_def dec_weak_def Let_def)
  have reachable:
    "(destructions (events s) = [] \<or> destructions (events s) = [Data]
        \<or> destructions (events s) = [Data, Storage])
      \<and> (Storage \<in> set (destructions (events s))
          \<longleftrightarrow> weak_refs (block s) = 0 \<and> block_dtor_due s = 0)
      \<and> block_dtor_due s =
          (if weak_refs (block s) = 0 \<and> Storage \<notin> set (destructions (events s))
           then 1 else 0)
      \<and> (weak_refs (block s) = 0 \<longrightarrow>
            strong_refs (block s) = 0 \<and> Data \<in> set (destructions (events s)))
      \<and> (strong_refs (block s) \<noteq> 0 \<longrightarrow>
            weak_refs (block s) \<noteq> 0 \<and> destructions (events s) = [])
      \<and> (\<forall>a s'. step cls p a s = Some s' \<longrightarrow>
            count_list (destructions (events s')) Storage =
              count_list (destructions (events s)) Storage
              + (if a = Run_block_dtor then 1 else 0)
            \<and> (a = Run_block_dtor \<longrightarrow>
                  strong_refs (block s) = 0 \<and> destructions (events s) = [Data])
            \<and> (a = Release_weak \<or> a = Run_implicit_release \<longrightarrow>
                  weak_refs (block s') = weak_refs (block s) - 1
                  \<and> block_dtor_due s' = (if weak_refs (block s) = 1 then 1 else 0)))
      \<and> (\<forall>d q. Block_dtor d q \<in> set (events s) \<longrightarrow> d = bdtor \<and> q = p)
      \<and> (Storage \<in> set (destructions (events s)) \<longrightarrow> (\<forall>a. step cls p a s = None))"
    if reach: "run cls p as (start (actor_control_block k n sys ddtor bdtor)) = Some s"
    for as s
  proof -
    from reach have c: "consistent s"
      by (rule reachable_consistent)
    have z: "strong_refs (block s) = 0 \<longleftrightarrow> strong_handles s = 0"
      using c by (rule strong_zero_iff)
    have alive: "weak_refs (block s) \<noteq> 0" if "0 < strong_handles s"
      using c that by (auto simp: consistent_def unat_eq_0 [symmetric] simp del: unat_eq_0)
    have dying: "weak_refs (block s) \<noteq> 0" if "0 < data_dtor_due s + implicit_release_due s"
      using c that by (auto simp: consistent_def unat_eq_0 [symmetric] simp del: unat_eq_0)
    from c have order: "destructions (events s) = [] \<or> destructions (events s) = [Data]
          \<or> destructions (events s) = [Data, Storage]"
      unfolding consistent_def by (cases "0 < strong_handles s") auto
    from c alive dying have freed: "Storage \<in> set (destructions (events s))
          \<longleftrightarrow> weak_refs (block s) = 0 \<and> block_dtor_due s = 0"
      unfolding consistent_def by (cases "0 < strong_handles s") auto
    from c alive dying have due: "block_dtor_due s =
          (if weak_refs (block s) = 0 \<and> Storage \<notin> set (destructions (events s))
           then 1 else 0)"
      unfolding consistent_def by (cases "0 < strong_handles s") auto
    from c alive dying have after: "weak_refs (block s) = 0 \<longrightarrow>
            strong_refs (block s) = 0 \<and> Data \<in> set (destructions (events s))"
      unfolding z consistent_def by (cases "0 < strong_handles s") auto
    from c alive have while: "strong_refs (block s) \<noteq> 0 \<longrightarrow>
            weak_refs (block s) \<noteq> 0 \<and> destructions (events s) = []"
      unfolding z consistent_def by (cases "0 < strong_handles s") auto
    have steps: "count_list (destructions (events s')) Storage =
              count_list (destructions (events s)) Storage
              + (if a = Run_block_dtor then 1 else 0)
            \<and> (a = Run_block_dtor \<longrightarrow>
                  strong_refs (block s) = 0 \<and> destructions (events s) = [Data])
            \<and> (a = Release_weak \<or> a = Run_implicit_release \<longrightarrow>
                  weak_refs (block s') = weak_refs (block s) - 1
                  \<and> block_dtor_due s' = (if weak_refs (block s) = 1 then 1 else 0))"
      if st: "step cls p a s = Some s'" for a s'
    proof (intro conjI impI)
      from step_events [OF st]
      show "count_list (destructions (events s')) Storage =
              count_list (destructions (events s)) Storage
              + (if a = Run_block_dtor then 1 else 0)"
        by (cases a) simp_all
    next
      assume a: "a = Run_block_dtor"
      with st have "0 < block_dtor_due s"
        by (simp split: if_splits)
      with c show "strong_refs (block s) = 0"
        unfolding z consistent_def by (cases "0 < strong_handles s") auto
      from \<open>0 < block_dtor_due s\<close> c show "destructions (events s) = [Data]"
        unfolding consistent_def by (cases "0 < strong_handles s") auto
    next
      assume a: "a = Release_weak \<or> a = Run_implicit_release"
      with st have "weak_refs (block s) \<noteq> 0"
        using alive dying c
        by (cases "0 < strong_handles s")
          (auto simp: consistent_def unat_eq_0 [symmetric] simp del: unat_eq_0 split: if_splits)
      with due have "block_dtor_due s = 0"
        by simp
      with st a show "weak_refs (block s') = weak_refs (block s) - 1"
          "block_dtor_due s' = (if weak_refs (block s) = 1 then 1 else 0)"
        by (auto simp: dec_weak_def Let_def split: if_splits)
    qed
    from reachable_callbacks [OF reach]
    have callee: "\<forall>d q. Block_dtor d q \<in> set (events s) \<longrightarrow> d = bdtor \<and> q = p"
      by auto
    from freed_is_final [OF c]
    have final: "Storage \<in> set (destructions (events s)) \<longrightarrow> (\<forall>a. step cls p a s = None)"
      by blast
    from order freed due after while steps callee final show ?thesis
      by blast
  qed
  from dec call reachable show ?thesis
    by blast
qed

theorem release_weak_frees_storage_last_witness:
  "(let b = actor_control_block (7::nat) (3::nat) (0::nat) (1::nat) (2::nat);
        s0 = \<lparr>block = b\<lparr>weak_refs := 2\<rparr>, events = [], strong_handles = 1,
              weak_handles = 1, data_dtor_due = 0, implicit_release_due = 0,
              block_dtor_due = 0, upgrading = []\<rparr>;
        s1 = \<lparr>block = b\<lparr>strong_refs := 0\<rparr>, events = [Data_dtor 1 4160],
              strong_handles = 0, weak_handles = 1, data_dtor_due = 0,
              implicit_release_due = 0, block_dtor_due = 0, upgrading = []\<rparr>;
        s2 = s1\<lparr>block := b\<lparr>strong_refs := 0, weak_refs := 0\<rparr>, weak_handles := 0,
                 block_dtor_due := 1\<rparr>;
        s3 = s2\<lparr>events := [Data_dtor 1 4160, Block_dtor 2 4096], block_dtor_due := 0\<rparr>
    in run 64 4096 [Add_weak_ref] (start b) = Some s0
     \<and> run 64 4096 [Add_weak_ref, Release, Run_data_dtor, Run_implicit_release] (start b)
         = Some s1
     \<and> run 64 4096 [Add_weak_ref, Release, Run_data_dtor, Run_implicit_release, Release_weak]
           (start b) = Some s2
     \<and> step 64 4096 Release_weak s1 = Some s2
     \<and> step 64 4096 Run_block_dtor s2 = Some s3
     \<and> intrusive_ptr_release_weak 4096 b = (b\<lparr>weak_refs := 0\<rparr>, [Block_dtor 2 4096])
     \<and> strong_refs (block s0) \<noteq> 0 \<and> weak_refs (block s0) \<noteq> 0
     \<and> destructions (events s0) = []
     \<and> block_dtor_due s2 = 1
     \<and> weak_refs (block s2) = 0 \<and> strong_refs (block s2) = 0
     \<and> destructions (events s2) = [Data]
     \<and> count_list (destructions (events s3)) Storage = 1
     \<and> run 64 4096 [Add_weak_ref, Release, Run_data_dtor, Run_implicit_release, Release_weak,
           Run_block_dtor] (start b) = Some s3
     \<and> step 64 4096 Release_weak s3 = None
     \<and> step 64 4096 (Run_cas 0) s3 = None)"
proof -
  define b where "b = actor_control_block (7::nat) (3::nat) (0::nat) (1::nat) (2::nat)"
  define s0 where "s0 = \<lparr>block = b\<lparr>weak_refs := 2\<rparr>, events = ([] :: (nat, nat) event list),
      strong_handles = 1, weak_handles = 1, data_dtor_due = 0, implicit_release_due = 0,
      block_dtor_due = 0, upgrading = []\<rparr>"
  define s1 where "s1 = \<lparr>block = b\<lparr>strong_refs := 0\<rparr>,
      events = [Data_dtor 1 4160 :: (nat, nat) event],
      strong_handles = 0, weak_handles = 1, data_dtor_due = 0, implicit_release_due = 0,
      block_dtor_due = 0, upgrading = []\<rparr>"
  define s2 where "s2 = s1\<lparr>block := b\<lparr>strong_refs := 0, weak_refs := 0\<rparr>, weak_handles := 0,
      block_dtor_due := 1\<rparr>"
  define s3 where "s3 = s2\<lparr>events := [Data_dtor 1 4160, Block_dtor 2 4096],
      block_dtor_due := 0\<rparr>"
  have r0: "run 64 4096 [Add_weak_ref] (start b) = Some s0"
    by (simp add: b_def s0_def eval_defs)
  have r1: "run 64 4096 [Add_weak_ref, Release, Run_data_dtor, Run_implicit_release] (start b)
      = Some s1"
    by (simp add: b_def s1_def eval_defs)
  have r2: "run 64 4096 [Add_weak_ref, Release, Run_data_dtor, Run_implicit_release,
      Release_weak] (start b) = Some s2"
    by (simp add: b_def s1_def s2_def eval_defs)
  have r3: "run 64 4096 [Add_weak_ref, Release, Run_data_dtor, Run_implicit_release,
      Release_weak, Run_block_dtor] (start b) = Some s3"
    by (simp add: b_def s1_def s2_def s3_def eval_defs)
  have st1: "step 64 4096 Release_weak s1 = Some s2"
    by (simp add: b_def s1_def s2_def eval_defs)
  have st2: "step 64 4096 Run_block_dtor s2 = Some s3"
    by (simp add: b_def s1_def s2_def s3_def eval_defs)
  note inst = release_weak_frees_storage_last [where x = b and cls = 64 and p = 4096]
  note i0 = inst [THEN conjunct2, THEN conjunct2, rule_format, OF r0 [unfolded b_def]]
  note i1 = inst [THEN conjunct2, THEN conjunct2, rule_format, OF r1 [unfolded b_def]]
  note i2 = inst [THEN conjunct2, THEN conjunct2, rule_format, OF r2 [unfolded b_def]]
  note i3 = inst [THEN conjunct2, THEN conjunct2, rule_format, OF r3 [unfolded b_def]]
  have a: "strong_refs (block s0) \<noteq> 0"
    by (simp add: s0_def b_def actor_control_block_def)
  have w: "weak_refs (block s2) = 0"
    by (simp add: s2_def)
  have c0: "weak_refs (block s0) \<noteq> 0 \<and> destructions (events s0) = []"
    using i0 a by simp
  have c1: "block_dtor_due s2 = (if weak_refs (block s1) = 1 then 1 else 0)"
    using i1 [THEN conjunct2, THEN conjunct2, THEN conjunct2, THEN conjunct2, THEN conjunct2,
        THEN conjunct1, rule_format, OF st1]
    by simp
  have c2: "strong_refs (block s2) = 0 \<and> destructions (events s2) = [Data]
      \<and> count_list (destructions (events s3)) Storage
          = count_list (destructions (events s2)) Storage + 1"
    using i2 [THEN conjunct2, THEN conjunct2, THEN conjunct2, THEN conjunct2, THEN conjunct2,
        THEN conjunct1, rule_format, OF st2]
    by simp
  have gone: "Storage \<in> set (destructions (events s3))"
    by (simp add: s3_def)
  note final = i3 [THEN conjunct2, THEN conjunct2, THEN conjunct2, THEN conjunct2,
      THEN conjunct2, THEN conjunct2, THEN conjunct2, rule_format, OF gone]
  have c3: "step 64 4096 Release_weak s3 = None \<and> step 64 4096 (Run_cas 0) s3 = None"
    using final [of Release_weak] final [of "Run_cas 0"]
    by (rule conjI)
  have call: "intrusive_ptr_release_weak 4096 b = (b\<lparr>weak_refs := 0\<rparr>, [Block_dtor 2 4096])"
    using inst [THEN conjunct1] inst [THEN conjunct2, THEN conjunct1]
    by (simp add: b_def eval_defs)
  from r0 r1 r2 r3 st1 st2 a w c0 c1 c2 c3 call show ?thesis
    unfolding Let_def b_def [symmetric] s0_def [symmetric] s1_def [symmetric]
      s2_def [symmetric] s3_def [symmetric]
    by (simp add: s1_def s2_def b_def actor_control_block_def)
qed

section \<open>Upgrading a weak reference\<close>

text \<open>
  C3. \<open>intrusive_ptr_upgrade_weak\<close> succeeds, adding one to the strong count, if the strong
  count it observes is not zero, and fails, changing nothing, if it is zero; so does its
  loop from any count observed before. In every state an execution reaches from a new
  block, a turn of the loop of an upgrade in flight returns \<open>True\<close> exactly when the count
  it observed is not zero and still is the strong count, and then the strong count is one
  more and there is one more strong handle; it returns \<open>False\<close> exactly when it observed
  zero, and then the strong count is zero and no strong handle is held. Once the strong
  count is zero it is zero in every later state, the operation fails there, and no upgrade
  returns \<open>True\<close> any more.
\<close>

theorem upgrade_weak_succeeds_iff_alive:
  "intrusive_ptr_upgrade_weak x =
        (if strong_refs x = 0 then (False, x)
         else (True, x\<lparr>strong_refs := strong_refs x + 1\<rparr>))
    \<and> upgrade_weak_loop count x =
        (if count = 0 \<or> strong_refs x = 0 then (False, x)
         else (True, x\<lparr>strong_refs := strong_refs x + 1\<rparr>))
    \<and> (\<forall>as s. run cls p as (start (actor_control_block k n sys ddtor bdtor)) = Some s \<longrightarrow>
          (\<forall>i s'. step cls p (Run_cas i) s = Some s' \<longrightarrow>
              (events s' = events s @ [Upgrade_returned True]
                 \<longleftrightarrow> upgrading s ! i \<noteq> 0 \<and> strong_refs (block s) = upgrading s ! i)
              \<and> (events s' = events s @ [Upgrade_returned True]
                 \<longrightarrow> strong_refs (block s) \<noteq> 0
                    \<and> strong_refs (block s') = strong_refs (block s) + 1
                    \<and> strong_handles s' = strong_handles s + 1)
              \<and> (events s' = events s @ [Upgrade_returned False]
                 \<longleftrightarrow> upgrading s ! i = 0)
              \<and> (events s' = events s @ [Upgrade_returned False]
                 \<longrightarrow> strong_refs (block s) = 0 \<and> strong_handles s = 0
                    \<and> block s' = block s))
          \<and> (strong_refs (block s) = 0 \<longrightarrow>
                (\<forall>as' s'. run cls p as' s = Some s' \<longrightarrow>
                   strong_refs (block s') = 0
                   \<and> \<not> fst (intrusive_ptr_upgrade_weak (block s'))
                   \<and> Upgrade_returned True \<notin> set (drop (length (events s)) (events s')))))"
proof -
  have loop: "upgrade_weak_loop count x =
        (if count = 0 \<or> strong_refs x = 0 then (False, x)
         else (True, x\<lparr>strong_refs := strong_refs x + 1\<rparr>))"
    by (rule upgrade_weak_loop_eq)
  have call: "intrusive_ptr_upgrade_weak x =
        (if strong_refs x = 0 then (False, x)
         else (True, x\<lparr>strong_refs := strong_refs x + 1\<rparr>))"
    by (simp add: intrusive_ptr_upgrade_weak_def upgrade_weak_loop_eq)
  have reachable:
    "(\<forall>i s'. step cls p (Run_cas i) s = Some s' \<longrightarrow>
          (events s' = events s @ [Upgrade_returned True]
             \<longleftrightarrow> upgrading s ! i \<noteq> 0 \<and> strong_refs (block s) = upgrading s ! i)
          \<and> (events s' = events s @ [Upgrade_returned True]
             \<longrightarrow> strong_refs (block s) \<noteq> 0
                \<and> strong_refs (block s') = strong_refs (block s) + 1
                \<and> strong_handles s' = strong_handles s + 1)
          \<and> (events s' = events s @ [Upgrade_returned False]
             \<longleftrightarrow> upgrading s ! i = 0)
          \<and> (events s' = events s @ [Upgrade_returned False]
             \<longrightarrow> strong_refs (block s) = 0 \<and> strong_handles s = 0
                \<and> block s' = block s))
      \<and> (strong_refs (block s) = 0 \<longrightarrow>
            (\<forall>as' s'. run cls p as' s = Some s' \<longrightarrow>
               strong_refs (block s') = 0
               \<and> \<not> fst (intrusive_ptr_upgrade_weak (block s'))
               \<and> Upgrade_returned True \<notin> set (drop (length (events s)) (events s'))))"
    if reach: "run cls p as (start (actor_control_block k n sys ddtor bdtor)) = Some s"
    for as s
  proof -
    from reach have c: "consistent s"
      by (rule reachable_consistent)
    have z: "strong_refs (block s) = 0 \<longleftrightarrow> strong_handles s = 0"
      using c by (rule strong_zero_iff)
    have cas: "(events s' = events s @ [Upgrade_returned True]
               \<longleftrightarrow> upgrading s ! i \<noteq> 0 \<and> strong_refs (block s) = upgrading s ! i)
            \<and> (events s' = events s @ [Upgrade_returned True]
               \<longrightarrow> strong_refs (block s) \<noteq> 0
                  \<and> strong_refs (block s') = strong_refs (block s) + 1
                  \<and> strong_handles s' = strong_handles s + 1)
            \<and> (events s' = events s @ [Upgrade_returned False]
               \<longleftrightarrow> upgrading s ! i = 0)
            \<and> (events s' = events s @ [Upgrade_returned False]
               \<longrightarrow> strong_refs (block s) = 0 \<and> strong_handles s = 0
                  \<and> block s' = block s)"
      if st: "step cls p (Run_cas i) s = Some s'" for i s'
    proof -
      from st have i: "i < length (upgrading s)"
        by (simp split: if_splits)
      then have mem: "upgrading s ! i \<in> set (upgrading s)"
        by simp
      have dead: "strong_handles s = 0" if "upgrading s ! i = 0"
        using c mem that by (auto simp: consistent_def)
      from step_events [OF st] have ev: "events s' = events s @
          (if upgrading s ! i = 0 then [Upgrade_returned False]
           else if strong_refs (block s) = upgrading s ! i then [Upgrade_returned True]
           else [])"
        by simp
      show ?thesis
      proof (cases "upgrading s ! i = 0")
        case True
        with st i ev dead z show ?thesis
          by (auto simp: Let_def)
      next
        case False
        with st i ev show ?thesis
          by (auto simp: Let_def split: if_splits)
      qed
    qed
    have forever: "strong_refs (block s') = 0
               \<and> \<not> fst (intrusive_ptr_upgrade_weak (block s'))
               \<and> Upgrade_returned True \<notin> set (drop (length (events s)) (events s'))"
      if d: "strong_refs (block s) = 0" and r: "run cls p as' s = Some s'" for as' s'
    proof -
      from dead_run [OF c d r] obtain es where
        "strong_refs (block s') = 0" "events s' = events s @ es"
        "Upgrade_returned True \<notin> set es"
        by blast
      then show ?thesis
        by (simp add: intrusive_ptr_upgrade_weak_def upgrade_weak_loop_eq)
    qed
    from cas forever show ?thesis
      by blast
  qed
  from call loop reachable show ?thesis
    by blast
qed

theorem upgrade_weak_succeeds_iff_alive_witness:
  "(let b = actor_control_block (7::nat) (3::nat) (0::nat) (1::nat) (2::nat);
        sa = \<lparr>block = b\<lparr>weak_refs := 2\<rparr>, events = [], strong_handles = 1,
              weak_handles = 0, data_dtor_due = 0, implicit_release_due = 0,
              block_dtor_due = 0, upgrading = [1]\<rparr>;
        sa' = sa\<lparr>block := b\<lparr>strong_refs := 2, weak_refs := 2\<rparr>,
                  events := [Upgrade_returned True], strong_handles := 2,
                  weak_handles := 1, upgrading := []\<rparr>;
        sb = \<lparr>block = b\<lparr>strong_refs := 0, weak_refs := 2\<rparr>, events = [],
              strong_handles = 0, weak_handles = 0, data_dtor_due = 1,
              implicit_release_due = 0, block_dtor_due = 0, upgrading = [0]\<rparr>;
        sb' = sb\<lparr>events := [Upgrade_returned False], weak_handles := 1, upgrading := []\<rparr>;
        sc = sb\<lparr>events := [Upgrade_returned False, Upgrade_returned False],
                 weak_handles := 1, upgrading := []\<rparr>
    in run 64 4096 [Add_weak_ref, Upgrade_weak] (start b) = Some sa
     \<and> step 64 4096 (Run_cas 0) sa = Some sa'
     \<and> run 64 4096 [Add_weak_ref, Upgrade_weak, Release, Run_cas 0] (start b) = Some sb
     \<and> step 64 4096 (Run_cas 0) sb = Some sb'
     \<and> run 64 4096 [Run_cas 0, Upgrade_weak, Run_cas 0] sb = Some sc
     \<and> intrusive_ptr_upgrade_weak b = (True, b\<lparr>strong_refs := 2\<rparr>)
     \<and> intrusive_ptr_upgrade_weak (b\<lparr>strong_refs := 0\<rparr>) = (False, b\<lparr>strong_refs := 0\<rparr>)
     \<and> strong_refs (block sa') = strong_refs (block sa) + 1
     \<and> strong_handles sa' = 2
     \<and> strong_refs (block sb) = 0 \<and> strong_handles sb = 0
     \<and> strong_refs (block sc) = 0
     \<and> \<not> fst (intrusive_ptr_upgrade_weak (block sc))
     \<and> Upgrade_returned True \<notin> set (drop (length (events sb)) (events sc)))"
proof -
  define b where "b = actor_control_block (7::nat) (3::nat) (0::nat) (1::nat) (2::nat)"
  define sa where "sa = \<lparr>block = b\<lparr>weak_refs := 2\<rparr>, events = ([] :: (nat, nat) event list),
      strong_handles = 1, weak_handles = 0, data_dtor_due = 0, implicit_release_due = 0,
      block_dtor_due = 0, upgrading = [1]\<rparr>"
  define sa' where "sa' = sa\<lparr>block := b\<lparr>strong_refs := 2, weak_refs := 2\<rparr>,
      events := [Upgrade_returned True], strong_handles := 2, weak_handles := 1,
      upgrading := []\<rparr>"
  define sb where "sb = \<lparr>block = b\<lparr>strong_refs := 0, weak_refs := 2\<rparr>,
      events = ([] :: (nat, nat) event list), strong_handles = 0, weak_handles = 0,
      data_dtor_due = 1, implicit_release_due = 0, block_dtor_due = 0, upgrading = [0]\<rparr>"
  define sb' where "sb' = sb\<lparr>events := [Upgrade_returned False], weak_handles := 1,
      upgrading := []\<rparr>"
  define sc where "sc = sb\<lparr>events := [Upgrade_returned False, Upgrade_returned False],
      weak_handles := 1, upgrading := []\<rparr>"
  have ra: "run 64 4096 [Add_weak_ref, Upgrade_weak] (start b) = Some sa"
    by (simp add: b_def sa_def eval_defs)
  have sta: "step 64 4096 (Run_cas 0) sa = Some sa'"
    by (simp add: b_def sa_def sa'_def eval_defs)
  have rb: "run 64 4096 [Add_weak_ref, Upgrade_weak, Release, Run_cas 0] (start b) = Some sb"
    by (simp add: b_def sb_def eval_defs)
  have stb: "step 64 4096 (Run_cas 0) sb = Some sb'"
    by (simp add: b_def sb_def sb'_def eval_defs)
  have rc: "run 64 4096 [Run_cas 0, Upgrade_weak, Run_cas 0] sb = Some sc"
    by (simp add: b_def sb_def sc_def eval_defs)
  note alive = upgrade_weak_succeeds_iff_alive [where x = b and cls = 64 and p = 4096]
  note dead = upgrade_weak_succeeds_iff_alive
    [where x = "b\<lparr>strong_refs := 0\<rparr>" and cls = 64 and p = 4096]
  note ia = alive [THEN conjunct2, THEN conjunct2, rule_format, OF ra [unfolded b_def]]
  note ib = dead [THEN conjunct2, THEN conjunct2, rule_format, OF rb [unfolded b_def]]
  have ea: "events sa' = events sa @ [Upgrade_returned True]"
    by (simp add: sa_def sa'_def)
  have eb: "events sb' = events sb @ [Upgrade_returned False]"
    by (simp add: sb_def sb'_def)
  have ca: "strong_refs (block sa') = strong_refs (block sa) + 1
      \<and> strong_handles sa' = strong_handles sa + 1"
    using ia [THEN conjunct1, rule_format, OF sta] ea
    by simp
  have cb: "strong_refs (block sb) = 0 \<and> strong_handles sb = 0"
    using ib [THEN conjunct1, rule_format, OF stb] eb
    by simp
  then have cc: "strong_refs (block sc) = 0
      \<and> \<not> fst (intrusive_ptr_upgrade_weak (block sc))
      \<and> Upgrade_returned True \<notin> set (drop (length (events sb)) (events sc))"
    using ib [THEN conjunct2, rule_format, OF _ rc]
    by simp
  have call1: "intrusive_ptr_upgrade_weak b = (True, b\<lparr>strong_refs := 2\<rparr>)"
    using alive [THEN conjunct1] by (simp add: b_def actor_control_block_def)
  have call2: "intrusive_ptr_upgrade_weak (b\<lparr>strong_refs := 0\<rparr>)
      = (False, b\<lparr>strong_refs := 0\<rparr>)"
    using dead [THEN conjunct1] by simp
  from ra sta rb stb rc ca cb cc call1 call2 show ?thesis
    unfolding Let_def b_def [symmetric] sa_def [symmetric] sa'_def [symmetric]
      sb_def [symmetric] sb'_def [symmetric] sc_def [symmetric]
    by (simp add: sa_def)
qed

end
